theory Spec2Isabelle
  imports Complex_Main "HOL-Library.Word" "HOL-Library.AList" "HOL-Library.Log_Nat"
begin

section \<open>Common conventions of the embedding\<close>

text \<open>
  The development embeds the ingestion pipeline of \<^verbatim>\<open>src/transceiver.go\<close> (package
  timeriver) and the later worker of \<^verbatim>\<open>src/receiver/worker.go\<close> (package receiver).

  \<^item> \<^verbatim>\<open>time.Duration\<close> and instants are \<open>int\<close> nanoseconds (both are int64 in Go; the
    theorems below stay inside the range where no int64 operation wraps).
  \<^item> A \<^verbatim>\<open>float64\<close> is the \<open>real\<close> it denotes; NaN and the infinities are not modelled. The
    counter rates are computed with the rounding of float64 (\<open>round_float64\<close> below): the
    conversion of the count, \<^verbatim>\<open>Duration.Seconds()\<close> and the division. The timer
    summaries add and divide exactly.
  \<^item> \<^verbatim>\<open>int64\<close> counters are \<open>64 word\<close>, read with \<open>sint\<close>; \<open>+\<close> wraps as in Go.
  \<^item> A Go \<^verbatim>\<open>map\<close> is an association list with distinct keys; a new key is added at the
    end and \<^verbatim>\<open>range\<close> walks the list front to back, which is one of the iteration
    orders Go allows.
  \<^item> A goroutine that panics, or that waits on a channel operation nobody will complete,
    is a value of \<open>outcome\<close>.
\<close>

datatype panic = NonPositiveIntn | DivideByZero | IndexOutOfRange

datatype 'a outcome = Returns 'a | Panics panic | Blocks

type_synonym duration = int
type_synonym instant = int
type_synonym float64 = real
type_synonym int64 = "64 word"

definition Nanosecond :: duration where
  "Nanosecond = 1"

definition Millisecond :: duration where
  "Millisecond = 1000000"

definition Second :: duration where
  "Second = 1000000000"

text \<open>\<^verbatim>\<open>Duration.Nanoseconds()\<close>.\<close>

definition Nanoseconds :: "duration \<Rightarrow> int" where
  "Nanoseconds d = d"

text \<open>Go's integer division and remainder truncate towards zero.\<close>

definition go_quot :: "int \<Rightarrow> int \<Rightarrow> int" where
  "go_quot a b = (if (a < 0) = (b < 0) then \<bar>a\<bar> div \<bar>b\<bar> else - (\<bar>a\<bar> div \<bar>b\<bar>))"

definition go_rem :: "int \<Rightarrow> int \<Rightarrow> int" where
  "go_rem a b = a - b * go_quot a b"

text \<open>
  The conversion \<^verbatim>\<open>int64(f)\<close> of a float64 drops the fraction (towards zero). Go leaves the
  result open when the truncated value does not fit int64; the model wraps there, and
  the theorems about it assume the value fits.
\<close>

definition trunc_float64 :: "float64 \<Rightarrow> int" where
  "trunc_float64 f = (if 0 \<le> f then \<lfloor>f\<rfloor> else \<lceil>f\<rceil>)"

definition int64_of_float64 :: "float64 \<Rightarrow> int64" where
  "int64_of_float64 f = word_of_int (trunc_float64 f)"

text \<open>
  The arithmetic of float64 (IEEE 754 binary64) rounds every result to the nearest
  representable number, ties to the one with an even significand. A representable number
  is \<open>m * 2 ^ k\<close> for integers \<open>\<bar>m\<bar> < 2 ^ 53\<close> and \<open>- 1074 \<le> k \<le> 971\<close>. For
  \<open>2 ^ e \<le> \<bar>x\<bar> < 2 ^ (e + 1)\<close> the spacing of the representable numbers around \<open>x\<close> is \<open>2\<close>
  to the power \<open>max e (- 1022) - 52\<close>, and \<open>x\<close> is rounded to a multiple of it. Overflow to
  an infinity (from \<open>2 ^ 1024\<close> on) is not modelled; the counter rates stay far below it.
\<close>

definition pow2 :: "int \<Rightarrow> real" where
  "pow2 k = (if 0 \<le> k then 2 ^ nat k else 1 / 2 ^ nat (- k))"

definition round_half_even :: "real \<Rightarrow> int" where
  "round_half_even y =
     (let f = \<lfloor>y\<rfloor>; r = y - of_int f
      in if r < 1 / 2 then f else if 1 / 2 < r then f + 1 else if even f then f else f + 1)"

text \<open>The exponent \<open>e\<close> with \<open>2 ^ e \<le> a < 2 ^ (e + 1)\<close> of a positive number \<open>a\<close>.\<close>

definition float64_exponent :: "real \<Rightarrow> int" where
  "float64_exponent a = (if 1 \<le> a then bitlen \<lfloor>a\<rfloor> - 1 else - bitlen (\<lceil>1 / a\<rceil> - 1))"

definition round_float64 :: "real \<Rightarrow> float64" where
  "round_float64 x =
     (if x = 0 then 0
      else let q = pow2 (max (float64_exponent \<bar>x\<bar>) (- 1022) - 52)
           in q * of_int (round_half_even (x / q)))"

definition f64_add :: "float64 \<Rightarrow> float64 \<Rightarrow> float64" where
  "f64_add x y = round_float64 (x + y)"

definition f64_div :: "float64 \<Rightarrow> float64 \<Rightarrow> float64" where
  "f64_div x y = round_float64 (x / y)"

text \<open>The conversion \<^verbatim>\<open>float64(c)\<close> of an int64 rounds as well (beyond \<open>2 ^ 53\<close>).\<close>

definition float64_of_int64 :: "int64 \<Rightarrow> float64" where
  "float64_of_int64 c = round_float64 (real_of_int (sint c))"

text \<open>
  \<^verbatim>\<open>Duration.Seconds()\<close> of Go's package time: \<^verbatim>\<open>sec := d / Second\<close>,
  \<^verbatim>\<open>nsec := d % Second\<close>, and the result is \<^verbatim>\<open>float64(sec) + float64(nsec)/1e9\<close>.
\<close>

definition Seconds :: "duration \<Rightarrow> float64" where
  "Seconds d =
     f64_add (round_float64 (real_of_int (go_quot d Second)))
       (f64_div (round_float64 (real_of_int (go_rem d Second))) 1000000000)"

text \<open>Reading a Go map at a key gives the zero value when the key is absent.\<close>

definition map_get :: "('k \<times> 'v) list \<Rightarrow> 'k \<Rightarrow> 'v \<Rightarrow> 'v" where
  "map_get m k zero = (case map_of m k of None \<Rightarrow> zero | Some v \<Rightarrow> v)"

definition map_has :: "('k \<times> 'v) list \<Rightarrow> 'k \<Rightarrow> bool" where
  "map_has m k = (case map_of m k of None \<Rightarrow> False | Some v \<Rightarrow> True)"

section \<open>The stats aggregator: \<^verbatim>\<open>statWorker\<close> of transceiver.go\<close>

record trStat =
  st_name :: string
  st_metric :: string
  st_value :: float64

text \<open>
  A data point as \<^verbatim>\<open>flushStats\<close> builds it (the \<^verbatim>\<open>ds\<close> pointer of \<^verbatim>\<open>trDataPoint\<close> is
  left unset there and is filled in by the dispatcher).
\<close>

record trDataPoint =
  dp_Name :: string
  dp_TimeStamp :: instant
  dp_Value :: float64

datatype stat_log = InvalidMetricType string

record stat_state =
  counts :: "(string \<times> int64) list"
  gauges :: "(string \<times> float64) list"
  timers :: "(string \<times> float64 list) list"
  stat_logs :: "stat_log list"

definition stat_init :: stat_state where
  "stat_init = \<lparr>counts = [], gauges = [], timers = [], stat_logs = []\<rparr>"

text \<open>The branch \<^verbatim>\<open>case st, ok := <-t.stCh\<close> with \<^verbatim>\<open>ok\<close> true (transceiver.go 433-447).\<close>

definition recv_stat :: "trStat \<Rightarrow> stat_state \<Rightarrow> stat_state" where
  "recv_stat st s =
     (if st_metric st = ''c'' then
        (let cs = (if \<not> map_has (counts s) (st_name st)
                   then AList.update (st_name st) 0 (counts s) else counts s)
         in s\<lparr>counts := AList.update (st_name st)
                 (map_get cs (st_name st) 0 + int64_of_float64 (st_value st)) cs\<rparr>)
      else if st_metric st = ''g'' then
        s\<lparr>gauges := AList.update (st_name st) (st_value st) (gauges s)\<rparr>
      else if st_metric st = ''ms'' then
        (let ts = (if \<not> map_has (timers s) (st_name st)
                   then AList.update (st_name st) (replicate 4 0) (timers s) else timers s)
         in s\<lparr>timers := AList.update (st_name st)
                 (map_get ts (st_name st) [] @ [st_value st]) ts\<rparr>)
      else s\<lparr>stat_logs := stat_logs s @ [InvalidMetricType (st_metric st)]\<rparr>)"

text \<open>
  The inner loop of the timers branch (transceiver.go 385-393): \<^verbatim>\<open>lower\<close> and \<^verbatim>\<open>upper\<close>
  start at \<^verbatim>\<open>times[0]\<close>, \<^verbatim>\<open>sum\<close> (here \<open>acc\<close>) starts at the zero value, and the loop runs over
  \<^verbatim>\<open>times[1:]\<close>.
\<close>

fun timer_loop :: "float64 list \<Rightarrow> float64 \<times> float64 \<times> float64 \<Rightarrow> float64 \<times> float64 \<times> float64" where
  "timer_loop [] st = st"
| "timer_loop (v # vs) (lower, upper, acc) = timer_loop vs (min lower v, max upper v, acc + v)"

definition mk_dp :: "string \<Rightarrow> instant \<Rightarrow> float64 \<Rightarrow> trDataPoint" where
  "mk_dp n t v = \<lparr>dp_Name = n, dp_TimeStamp = t, dp_Value = v\<rparr>"

definition count_points :: "string \<Rightarrow> duration \<Rightarrow> instant \<Rightarrow> string \<times> int64 \<Rightarrow> trDataPoint list" where
  "count_points prefix statFlush now nc =
     [mk_dp (prefix @ ''.'' @ fst nc) now
        (f64_div (float64_of_int64 (snd nc)) (Seconds statFlush))]"

definition gauge_points :: "string \<Rightarrow> instant \<Rightarrow> string \<times> float64 \<Rightarrow> trDataPoint list" where
  "gauge_points prefix now ng = [mk_dp (prefix @ ''.gauges.'' @ fst ng) now (snd ng)]"

definition timer_points :: "string \<Rightarrow> instant \<Rightarrow> string \<times> float64 list \<Rightarrow> trDataPoint list" where
  "timer_points prefix now nt =
     mk_dp (prefix @ ''.timers.'' @ fst nt @ ''.count'') now (real (length (snd nt))) #
     (case snd nt of
        [] \<Rightarrow> []
      | t0 # rest \<Rightarrow>
          (case timer_loop rest (t0, t0, 0) of (lower, upper, acc) \<Rightarrow>
             [mk_dp (prefix @ ''.timers.'' @ fst nt @ ''.lower'') now lower,
              mk_dp (prefix @ ''.timers.'' @ fst nt @ ''.upper'') now upper,
              mk_dp (prefix @ ''.timers.'' @ fst nt @ ''.sum'') now acc,
              mk_dp (prefix @ ''.timers.'' @ fst nt @ ''.mean'') now
                (acc / real (length (snd nt)))]))"

text \<open>
  \<^verbatim>\<open>flushStats\<close> (transceiver.go 370-413): the data points it queues, in order, and the
  state with the three maps replaced by empty ones. The calls of \<^verbatim>\<open>time.Now()\<close> of one
  flush are one instant \<open>now\<close>.
\<close>

definition flushStats :: "string \<Rightarrow> duration \<Rightarrow> instant \<Rightarrow> stat_state \<Rightarrow> trDataPoint list \<times> stat_state" where
  "flushStats prefix statFlush now s =
     (concat (map (count_points prefix statFlush now) (counts s)) @
      concat (map (gauge_points prefix now) (gauges s)) @
      concat (map (timer_points prefix now) (timers s)),
      s\<lparr>counts := [], gauges := [], timers := []\<rparr>)"

text \<open>
  The main loop (transceiver.go 415-449) over the sequence of branches its selects take:
  a tick on \<^verbatim>\<open>flushCh\<close> at an instant, a stat from \<^verbatim>\<open>stCh\<close>, or \<^verbatim>\<open>stCh\<close> found closed,
  which flushes once more and returns. The result is the queued data points, the state,
  and whether the loop has returned.
\<close>

datatype stat_event = FlushTick instant | StatMsg trStat | StChClosed instant

fun statWorker :: "string \<Rightarrow> duration \<Rightarrow> stat_event list \<Rightarrow> trDataPoint list \<times> stat_state \<Rightarrow>
    trDataPoint list \<times> stat_state \<times> bool" where
  "statWorker prefix statFlush [] (out, s) = (out, s, False)"
| "statWorker prefix statFlush (FlushTick now # evs) (out, s) =
     (case flushStats prefix statFlush now s of (dps, s') \<Rightarrow>
        statWorker prefix statFlush evs (out @ dps, s'))"
| "statWorker prefix statFlush (StatMsg st # evs) (out, s) =
     statWorker prefix statFlush evs (out, recv_stat st s)"
| "statWorker prefix statFlush (StChClosed now # evs) (out, s) =
     (case flushStats prefix statFlush now s of (dps, s') \<Rightarrow> (out @ dps, s', True))"

text \<open>
  One stat-flush interval: the stats received between two flushes, applied in arrival
  order to the state a flush leaves behind.
\<close>

definition recv_all :: "trStat list \<Rightarrow> stat_state \<Rightarrow> stat_state" where
  "recv_all sts s = foldl (\<lambda>s st. recv_stat st s) s sts"

text \<open>The values a counter, or a timer, of a given name received in an interval.\<close>

definition counter_values :: "string \<Rightarrow> trStat list \<Rightarrow> float64 list" where
  "counter_values c sts = map st_value (filter (\<lambda>st. st_metric st = ''c'' \<and> st_name st = c) sts)"

definition timer_values :: "string \<Rightarrow> trStat list \<Rightarrow> float64 list" where
  "timer_values n sts = map st_value (filter (\<lambda>st. st_metric st = ''ms'' \<and> st_name st = n) sts)"

definition points_named :: "string \<Rightarrow> trDataPoint list \<Rightarrow> trDataPoint list" where
  "points_named n dps = filter (\<lambda>dp. dp_Name dp = n) dps"

section \<open>The periodic-flush timer of a worker\<close>

text \<open>
  \<^verbatim>\<open>rand.Intn(n)\<close> panics when \<open>n \<le> 0\<close> and otherwise returns a number of \<open>[0, n)\<close>. The
  random source is the argument \<open>draw\<close>; as \<open>draw\<close> ranges over the naturals the result
  takes every value of \<open>[0, n)\<close>.
\<close>

definition rand_Intn :: "nat \<Rightarrow> int \<Rightarrow> int outcome" where
  "rand_Intn draw n = (if n \<le> 0 then Panics NonPositiveIntn else Returns (int draw mod n))"

text \<open>
  The duration the timer goroutine of \<^verbatim>\<open>worker\<close> in transceiver.go (lines 213-220) passes
  to \<^verbatim>\<open>time.Sleep\<close>: \<^verbatim>\<open>i := int(MaxCache.Nanoseconds() - MinCache.Nanoseconds()) / 1000\<close>,
  then \<^verbatim>\<open>time.Duration(rand.Intn(i))*time.Millisecond + MinCache\<close>.
\<close>

definition worker_periodic_sleep :: "duration \<Rightarrow> duration \<Rightarrow> nat \<Rightarrow> duration outcome" where
  "worker_periodic_sleep MinCache MaxCache draw =
     (let i = go_quot (Nanoseconds MaxCache - Nanoseconds MinCache) 1000
      in case rand_Intn draw i of
           Returns r \<Rightarrow> Returns (r * Millisecond + MinCache)
         | Panics e \<Rightarrow> Panics e
         | Blocks \<Rightarrow> Blocks)"

text \<open>
  The duration \<^verbatim>\<open>dur\<close> of \<^verbatim>\<open>workerPeriodicFlushSignal\<close> in receiver/worker.go (lines
  27-28): the divisor is 1000000 and the argument of \<^verbatim>\<open>rand.Intn\<close> is \<^verbatim>\<open>i+1\<close>.
\<close>

definition workerPeriodicFlushSignal_dur :: "duration \<Rightarrow> duration \<Rightarrow> nat \<Rightarrow> duration outcome" where
  "workerPeriodicFlushSignal_dur minCacheDur maxCacheDur draw =
     (let i = go_quot (Nanoseconds maxCacheDur - Nanoseconds minCacheDur) 1000000
      in case rand_Intn draw (i + 1) of
           Returns r \<Rightarrow> Returns (r * Millisecond + minCacheDur)
         | Panics e \<Rightarrow> Panics e
         | Blocks \<Rightarrow> Blocks)"

section \<open>The stat-flush tick channel\<close>









section \<open>Data sources, the registry and the flushers\<close>

text \<open>
  The type \<^verbatim>\<open>trDataSource\<close> and its methods are not in the files at hand; the workers use
  the fields \<^verbatim>\<open>Id\<close> and \<^verbatim>\<open>LastFlushRT\<close> and the methods \<^verbatim>\<open>process\<close> (through the data
  point), \<^verbatim>\<open>shouldBeFlushed\<close>, \<^verbatim>\<open>mostlyCopy\<close> and \<^verbatim>\<open>clearRRAs\<close>. A data source is a record
  of the two fields and of the rest of its content \<open>'r\<close> (the archives); the methods are
  parameters of the workers, collected in \<open>ds_ops\<close>. \<^verbatim>\<open>process\<close> yields the data source
  after the call and the error, if any.

  Data sources are shared through pointers: the heap maps an address to the object, the
  registry \<^verbatim>\<open>t.dss\<close> maps an id to an address (\<^verbatim>\<open>getById\<close>; \<open>None\<close> is Go's nil).
\<close>

type_synonym addr = nat

record 'r trDataSource =
  ds_Id :: int
  ds_LastFlushRT :: instant
  ds_rras :: 'r

record 'r ds_ops =
  op_process :: "'r trDataSource \<Rightarrow> float64 \<Rightarrow> instant \<Rightarrow> 'r trDataSource \<times> string option"
  op_shouldBeFlushed :: "'r trDataSource \<Rightarrow> bool"
  op_mostlyCopy :: "'r trDataSource \<Rightarrow> 'r trDataSource"
  op_clearRRAs :: "'r trDataSource \<Rightarrow> 'r trDataSource"

text \<open>
  A flusher channel is \<^verbatim>\<open>make(chan *trDataSource)\<close> (transceiver.go 327): it has no buffer,
  so a send completes only when the flusher of that shard receives. \<open>fc_live\<close> says that
  the flusher comes back to its receive (its storage call returns); \<open>fc_taken\<close> is what
  it has received so far. \<^verbatim>\<open>t.flusherChs\<close> has \<^verbatim>\<open>config.Workers\<close> entries, here a function
  on the indices below \<open>Workers\<close>.
\<close>

record 'r flusher_chan =
  fc_live :: bool
  fc_taken :: "'r trDataSource list"

datatype worker_log = CannotLookupForCopy int | CannotLookupToFlush int | ProcessError string

text \<open>What a goroutine does to a reply channel \<^verbatim>\<open>r.resp\<close>, in order.\<close>

datatype 'r chan_op = ChanSend "'r trDataSource" | ChanClose

record 'r tw_state =
  heap :: "addr \<Rightarrow> 'r trDataSource"
  dss_byId :: "int \<Rightarrow> addr option"
  recent :: "int list"
  flusherChs :: "nat \<Rightarrow> 'r flusher_chan"
  copy_resps :: "(int \<times> 'r chan_op list) list"
  worker_logs :: "worker_log list"

definition obind :: "'a outcome \<Rightarrow> ('a \<Rightarrow> 'b outcome) \<Rightarrow> 'b outcome" where
  "obind m f = (case m of Returns x \<Rightarrow> f x | Panics e \<Rightarrow> Panics e | Blocks \<Rightarrow> Blocks)"

text \<open>
  \<^verbatim>\<open>flushDs\<close> (transceiver.go 277-281) on the data source at address \<open>a\<close>:
  \<^verbatim>\<open>t.flusherChs[ds.Id%int64(config.Workers)] <- ds.mostlyCopy()\<close>, a plain send, then
  \<^verbatim>\<open>ds.LastFlushRT = time.Now()\<close>, then \<^verbatim>\<open>ds.clearRRAs()\<close>. The remainder by zero and a
  negative index panic.
\<close>

definition flushDs :: "'r ds_ops \<Rightarrow> int \<Rightarrow> instant \<Rightarrow> addr \<Rightarrow> 'r tw_state \<Rightarrow> 'r tw_state outcome" where
  "flushDs ops Workers now a st =
     (if Workers = 0 then Panics DivideByZero
      else let k = go_rem (ds_Id (heap st a)) Workers in
        if k < 0 then Panics IndexOutOfRange
        else let ch = flusherChs st (nat k) in
          if fc_live ch
          then Returns (st\<lparr>
                 flusherChs := (flusherChs st)
                   (nat k := ch\<lparr>fc_taken := fc_taken ch @ [op_mostlyCopy ops (heap st a)]\<rparr>),
                 heap := (heap st)
                   (a := op_clearRRAs ops ((heap st a)\<lparr>ds_LastFlushRT := now\<rparr>))\<rparr>)
          else Blocks)"

section \<open>The worker of transceiver.go\<close>

text \<open>
  The keys of \<^verbatim>\<open>recent\<close> (a \<^verbatim>\<open>map[int64]bool\<close> whose values are all true) are a list
  without repetition. \<^verbatim>\<open>recent[k] = true\<close> and \<^verbatim>\<open>delete(recent, k)\<close>:
\<close>

definition recent_add :: "int \<Rightarrow> int list \<Rightarrow> int list" where
  "recent_add k ks = (if k \<in> set ks then ks else ks @ [k])"

definition recent_delete :: "int \<Rightarrow> int list \<Rightarrow> int list" where
  "recent_delete k ks = removeAll k ks"

text \<open>
  The loop \<^verbatim>\<open>for dsId, _ := range recent\<close> of transceiver.go 255-264, over the keys still to
  visit. A key deleted from the map before the loop reaches it is not visited. An id the
  registry does not find is logged and the loop goes on; \<^verbatim>\<open>recent\<close> keeps it.
\<close>

fun worker_flush_loop :: "'r ds_ops \<Rightarrow> int \<Rightarrow> instant \<Rightarrow> bool \<Rightarrow> int list \<Rightarrow> 'r tw_state \<Rightarrow>
    'r tw_state outcome" where
  "worker_flush_loop ops Workers now flushEverything [] st = Returns st"
| "worker_flush_loop ops Workers now flushEverything (dsId # ks) st =
     (if dsId \<in> set (recent st) then
        (case dss_byId st dsId of
           None \<Rightarrow>
             worker_flush_loop ops Workers now flushEverything ks
               (st\<lparr>worker_logs := worker_logs st @ [CannotLookupToFlush dsId]\<rparr>)
         | Some a \<Rightarrow>
             if flushEverything \<or> op_shouldBeFlushed ops (heap st a) then
               (case flushDs ops Workers now a st of
                  Returns st' \<Rightarrow>
                    worker_flush_loop ops Workers now flushEverything ks
                      (st'\<lparr>recent := recent_delete (ds_Id (heap st' a)) (recent st')\<rparr>)
                | Panics e \<Rightarrow> Panics e
                | Blocks \<Rightarrow> Blocks)
             else worker_flush_loop ops Workers now flushEverything ks st)
      else worker_flush_loop ops Workers now flushEverything ks st)"

text \<open>
  The branch \<^verbatim>\<open>case r := <-t.dsCopyChs[id]\<close> (transceiver.go 242-250): what the worker does
  to the reply channel of the request, and the state after it.
\<close>

definition worker_dsCopy :: "'r ds_ops \<Rightarrow> int \<Rightarrow> 'r tw_state \<Rightarrow> 'r chan_op list \<times> 'r tw_state" where
  "worker_dsCopy ops dsId st =
     (case dss_byId st dsId of
        None \<Rightarrow> ([], st\<lparr>worker_logs := worker_logs st @ [CannotLookupForCopy dsId]\<rparr>)
      | Some a \<Rightarrow> ([ChanSend (op_mostlyCopy ops (heap st a)), ChanClose], st))"

text \<open>
  One turn of the \<^verbatim>\<open>for\<close> loop of \<^verbatim>\<open>worker\<close> (transceiver.go 225-274) for the branch its
  select takes: the periodic signal, a data point (with the address \<^verbatim>\<open>dp.ds\<close>, the value
  and the time stamp), the inbox found closed, or a copy request. The result is the state
  and whether the loop was left (\<^verbatim>\<open>break\<close>).
\<close>

datatype worker_event =
  PeriodicFlushCheck | IncomingDp addr float64 instant | WorkerChClosed | DsCopyRequest int

definition worker_iteration :: "'r ds_ops \<Rightarrow> int \<Rightarrow> instant \<Rightarrow> worker_event \<Rightarrow> 'r tw_state \<Rightarrow>
    ('r tw_state \<times> bool) outcome" where
  "worker_iteration ops Workers now ev st =
     (case ev of
        DsCopyRequest dsId \<Rightarrow>
          (case worker_dsCopy ops dsId st of
             (resp, st') \<Rightarrow> Returns (st'\<lparr>copy_resps := copy_resps st' @ [(dsId, resp)]\<rparr>, False))
      | PeriodicFlushCheck \<Rightarrow>
          obind (worker_flush_loop ops Workers now False (recent st) st)
            (\<lambda>st'. Returns (st', False))
      | WorkerChClosed \<Rightarrow>
          obind (worker_flush_loop ops Workers now True (recent st) st)
            (\<lambda>st'. Returns (st', True))
      | IncomingDp a v ts \<Rightarrow>
          (let st1 = (case op_process ops (heap st a) v ts of
                        (ds', None) \<Rightarrow>
                          st\<lparr>heap := (heap st)(a := ds'),
                             recent := recent_add (ds_Id ds') (recent st)\<rparr>
                      | (ds', Some err) \<Rightarrow>
                          st\<lparr>heap := (heap st)(a := ds'),
                             worker_logs := worker_logs st @ [ProcessError err]\<rparr>)
           in if op_shouldBeFlushed ops (heap st1 a)
              then obind (flushDs ops Workers now a st1)
                     (\<lambda>st2. Returns
                        (st2\<lparr>recent := recent_delete (ds_Id (heap st2 a)) (recent st2)\<rparr>, False))
              else Returns (st1, False)))"

text \<open>The worker over the branches its selects take, each at an instant.\<close>

fun tr_worker :: "'r ds_ops \<Rightarrow> int \<Rightarrow> (instant \<times> worker_event) list \<Rightarrow> 'r tw_state \<Rightarrow>
    ('r tw_state \<times> bool) outcome" where
  "tr_worker ops Workers [] st = Returns (st, False)"
| "tr_worker ops Workers ((now, ev) # evs) st =
     (case worker_iteration ops Workers now ev st of
        Returns (st', left) \<Rightarrow>
          if left then Returns (st', True) else tr_worker ops Workers evs st'
      | Panics e \<Rightarrow> Panics e
      | Blocks \<Rightarrow> Blocks)"

text \<open>
  \<^verbatim>\<open>requestDsCopy\<close> (transceiver.go 195-199): the request goes to
  \<^verbatim>\<open>t.dsCopyChs[id%int64(config.Workers)]\<close> (of \<^verbatim>\<open>config.Workers\<close> buffered channels, taken
  to have room), the worker of that shard serves it, and the caller receives from the
  reply channel, which nobody else holds: a value sent, nil from a closed channel, or
  nothing ever.
\<close>

definition chan_recv :: "'r chan_op list \<Rightarrow> 'r trDataSource option outcome" where
  "chan_recv resp =
     (case resp of
        [] \<Rightarrow> Blocks
      | ChanSend v # rest \<Rightarrow> Returns (Some v)
      | ChanClose # rest \<Rightarrow> Returns None)"

definition requestDsCopy :: "'r ds_ops \<Rightarrow> int \<Rightarrow> int \<Rightarrow> 'r tw_state \<Rightarrow> 'r trDataSource option outcome" where
  "requestDsCopy ops Workers dsId st =
     (if Workers = 0 then Panics DivideByZero
      else if go_rem dsId Workers < 0 then Panics IndexOutOfRange
      else chan_recv (fst (worker_dsCopy ops dsId st)))"

section \<open>The worker of receiver/worker.go\<close>

text \<open>
  The later worker takes its data sources from a cache \<^verbatim>\<open>dss\<close> (\<^verbatim>\<open>getById\<close>) and hands
  them to a flusher through the interface call \<^verbatim>\<open>dsf.flushDs(rds, false)\<close>. Neither type
  is in the files at hand: the methods are again parameters, \<^verbatim>\<open>shouldBeFlushed\<close> now with
  its three arguments, and a call of \<^verbatim>\<open>dsf.flushDs\<close> is recorded with the data source as it
  was at the call and the flag. The lines printed only under \<^verbatim>\<open>debug\<close> are left out.
\<close>

record 'r rw_ops =
  rop_ProcessIncomingDataPoint ::
    "'r trDataSource \<Rightarrow> float64 \<Rightarrow> instant \<Rightarrow> 'r trDataSource \<times> string option"
  rop_shouldBeFlushed :: "'r trDataSource \<Rightarrow> int \<Rightarrow> duration \<Rightarrow> duration \<Rightarrow> bool"
  rop_flushDs :: "'r trDataSource \<Rightarrow> bool \<Rightarrow> 'r trDataSource"

record 'r rw_state =
  rw_heap :: "addr \<Rightarrow> 'r trDataSource"
  rw_byId :: "int \<Rightarrow> addr option"
  rw_recent :: "int list"
  rw_flushDs_calls :: "('r trDataSource \<times> bool) list"
  rw_logs :: "worker_log list"

definition dsf_flushDs :: "'r rw_ops \<Rightarrow> addr \<Rightarrow> bool \<Rightarrow> 'r rw_state \<Rightarrow> 'r rw_state" where
  "dsf_flushDs ops a block st =
     st\<lparr>rw_flushDs_calls := rw_flushDs_calls st @ [(rw_heap st a, block)],
        rw_heap := (rw_heap st)(a := rop_flushDs ops (rw_heap st a) block)\<rparr>"

text \<open>
  \<^verbatim>\<open>workerPeriodicFlush\<close> (worker.go 34-50): the loop over the keys of \<^verbatim>\<open>recent\<close> still to
  visit. The call in the loop is \<^verbatim>\<open>rds.shouldBeFlushed(maxPoints, minCacheDur, minCacheDur)\<close>.
\<close>

fun workerPeriodicFlush_loop :: "'r rw_ops \<Rightarrow> int list \<Rightarrow> duration \<Rightarrow> duration \<Rightarrow> int \<Rightarrow>
    'r rw_state \<Rightarrow> 'r rw_state" where
  "workerPeriodicFlush_loop ops [] minCacheDur maxCacheDur maxPoints st = st"
| "workerPeriodicFlush_loop ops (dsId # ks) minCacheDur maxCacheDur maxPoints st =
     (if dsId \<in> set (rw_recent st) then
        (case rw_byId st dsId of
           None \<Rightarrow>
             workerPeriodicFlush_loop ops ks minCacheDur maxCacheDur maxPoints
               (st\<lparr>rw_logs := rw_logs st @ [CannotLookupToFlush dsId],
                   rw_recent := recent_delete dsId (rw_recent st)\<rparr>)
         | Some a \<Rightarrow>
             if rop_shouldBeFlushed ops (rw_heap st a) maxPoints minCacheDur minCacheDur then
               (let st' = dsf_flushDs ops a False st
                in workerPeriodicFlush_loop ops ks minCacheDur maxCacheDur maxPoints
                     (st'\<lparr>rw_recent := recent_delete (ds_Id (rw_heap st' a)) (rw_recent st')\<rparr>))
             else workerPeriodicFlush_loop ops ks minCacheDur maxCacheDur maxPoints st)
      else workerPeriodicFlush_loop ops ks minCacheDur maxCacheDur maxPoints st)"

definition workerPeriodicFlush :: "'r rw_ops \<Rightarrow> duration \<Rightarrow> duration \<Rightarrow> int \<Rightarrow>
    'r rw_state \<Rightarrow> 'r rw_state" where
  "workerPeriodicFlush ops minCacheDur maxCacheDur maxPoints st =
     workerPeriodicFlush_loop ops (rw_recent st) minCacheDur maxCacheDur maxPoints st"

text \<open>
  The branch for a data point of \<^verbatim>\<open>worker\<close> (worker.go 72-86), and the loop of \<^verbatim>\<open>worker\<close>
  (worker.go 64-89) over the branches its select takes. On the closed inbox the worker
  returns at once.
\<close>

definition receiver_incoming :: "'r rw_ops \<Rightarrow> duration \<Rightarrow> duration \<Rightarrow> int \<Rightarrow> addr \<Rightarrow> float64 \<Rightarrow>
    instant \<Rightarrow> 'r rw_state \<Rightarrow> 'r rw_state" where
  "receiver_incoming ops minCacheDur maxCacheDur maxPoints a v ts st =
     (case rop_ProcessIncomingDataPoint ops (rw_heap st a) v ts of
        (rds, None) \<Rightarrow>
          (let st1 = st\<lparr>rw_heap := (rw_heap st)(a := rds)\<rparr>
           in if rop_shouldBeFlushed ops rds maxPoints minCacheDur maxCacheDur then
                (let st2 = dsf_flushDs ops a False st1
                 in st2\<lparr>rw_recent := recent_delete (ds_Id (rw_heap st2 a)) (rw_recent st2)\<rparr>)
              else st1\<lparr>rw_recent := recent_add (ds_Id rds) (rw_recent st1)\<rparr>)
      | (rds, Some err) \<Rightarrow>
          st\<lparr>rw_heap := (rw_heap st)(a := rds), rw_logs := rw_logs st @ [ProcessError err]\<rparr>)"

datatype receiver_event = RPeriodicFlushCheck | RIncomingDp addr float64 instant | RWorkerChClosed

fun receiver_worker :: "'r rw_ops \<Rightarrow> duration \<Rightarrow> duration \<Rightarrow> int \<Rightarrow> receiver_event list \<Rightarrow>
    'r rw_state \<Rightarrow> 'r rw_state \<times> bool" where
  "receiver_worker ops minCacheDur maxCacheDur maxPoints [] st = (st, False)"
| "receiver_worker ops minCacheDur maxCacheDur maxPoints (RPeriodicFlushCheck # evs) st =
     receiver_worker ops minCacheDur maxCacheDur maxPoints evs
       (workerPeriodicFlush ops minCacheDur maxCacheDur maxPoints st)"
| "receiver_worker ops minCacheDur maxCacheDur maxPoints (RIncomingDp a v ts # evs) st =
     receiver_worker ops minCacheDur maxCacheDur maxPoints evs
       (receiver_incoming ops minCacheDur maxCacheDur maxPoints a v ts st)"
| "receiver_worker ops minCacheDur maxCacheDur maxPoints (RWorkerChClosed # evs) st = (st, True)"

section \<open>Data-source methods for the concrete runs\<close>

text \<open>
  Modelled from the spec: the methods of a data source (\<^verbatim>\<open>process\<close>, \<^verbatim>\<open>shouldBeFlushed\<close>,
  \<^verbatim>\<open>mostlyCopy\<close>, \<^verbatim>\<open>clearRRAs\<close>) are missing from the files at hand. The content \<open>'r\<close> is
  the list of buffered slot values. \<^verbatim>\<open>mostlyCopy\<close> is a structural copy, \<^verbatim>\<open>clearRRAs\<close>
  empties the buffered slots, \<^verbatim>\<open>process\<close> buffers the value, and \<^verbatim>\<open>shouldBeFlushed\<close> is
  the contract of section 4.2: false while the last flush is younger than \<open>minCacheDur\<close>,
  otherwise true when at least \<open>maxPoints\<close> slots are buffered or the last flush is older
  than \<open>maxCacheDur\<close>.
\<close>

definition spec_shouldBeFlushed :: "instant \<Rightarrow> float64 list trDataSource \<Rightarrow> int \<Rightarrow> duration \<Rightarrow>
    duration \<Rightarrow> bool" where
  "spec_shouldBeFlushed now ds maxPoints minCacheDur maxCacheDur =
     (if now - ds_LastFlushRT ds < minCacheDur then False
      else (maxPoints \<le> int (length (ds_rras ds)) \<or> maxCacheDur < now - ds_LastFlushRT ds))"

definition spec_process :: "float64 list trDataSource \<Rightarrow> float64 \<Rightarrow> instant \<Rightarrow>
    float64 list trDataSource \<times> string option" where
  "spec_process ds v ts = (ds\<lparr>ds_rras := ds_rras ds @ [v]\<rparr>, None)"

definition spec_mostlyCopy :: "float64 list trDataSource \<Rightarrow> float64 list trDataSource" where
  "spec_mostlyCopy ds = ds"

definition spec_clearRRAs :: "float64 list trDataSource \<Rightarrow> float64 list trDataSource" where
  "spec_clearRRAs ds = ds\<lparr>ds_rras := []\<rparr>"

definition spec_ops :: "instant \<Rightarrow> int \<Rightarrow> duration \<Rightarrow> duration \<Rightarrow> float64 list ds_ops" where
  "spec_ops now maxPoints minCacheDur maxCacheDur =
     \<lparr>op_process = spec_process,
      op_shouldBeFlushed = (\<lambda>ds. spec_shouldBeFlushed now ds maxPoints minCacheDur maxCacheDur),
      op_mostlyCopy = spec_mostlyCopy,
      op_clearRRAs = spec_clearRRAs\<rparr>"

definition spec_rw_ops :: "instant \<Rightarrow> float64 list rw_ops" where
  "spec_rw_ops now =
     \<lparr>rop_ProcessIncomingDataPoint = spec_process,
      rop_shouldBeFlushed = spec_shouldBeFlushed now,
      rop_flushDs = (\<lambda>ds block. spec_clearRRAs (ds\<lparr>ds_LastFlushRT := now\<rparr>))\<rparr>"

text \<open>Small concrete states: one data source of id 1 at address 0, one flusher shard.\<close>

definition ds1 :: "float64 list trDataSource" where
  "ds1 = \<lparr>ds_Id = 1, ds_LastFlushRT = 0, ds_rras = [7]\<rparr>"

definition tw_demo :: "(int \<Rightarrow> addr option) \<Rightarrow> int list \<Rightarrow> bool \<Rightarrow> float64 list tw_state" where
  "tw_demo byId rec live =
     \<lparr>heap = (\<lambda>a. ds1), dss_byId = byId, recent = rec,
      flusherChs = (\<lambda>i. \<lparr>fc_live = live, fc_taken = []\<rparr>), copy_resps = [], worker_logs = []\<rparr>"

definition rw_demo :: "(int \<Rightarrow> addr option) \<Rightarrow> int list \<Rightarrow> float64 list rw_state" where
  "rw_demo byId rec =
     \<lparr>rw_heap = (\<lambda>a. ds1), rw_byId = byId, rw_recent = rec, rw_flushDs_calls = [],
      rw_logs = []\<rparr>"

text \<open>What the flusher of a shard has received once an operation has returned.\<close>

definition outcome_taken :: "'r tw_state outcome \<Rightarrow> nat \<Rightarrow> 'r trDataSource list" where
  "outcome_taken r i =
     (case r of Returns st' \<Rightarrow> fc_taken (flusherChs st' i) | Panics e \<Rightarrow> [] | Blocks \<Rightarrow> [])"

section \<open>Verified properties\<close>

subsection \<open>Stats aggregator\<close>

lemma recv_all_snoc: "recv_all (sts @ [st]) s = recv_stat st (recv_all sts s)"
  by (simp add: recv_all_def)

lemma statWorker_stats:
  "statWorker p d (map StatMsg sts @ evs) (out, s) = statWorker p d evs (out, recv_all sts s)"
  by (induction sts arbitrary: s) (simp_all add: recv_all_def)

lemma map_has_iff: "map_has m k \<longleftrightarrow> map_of m k \<noteq> None"
  by (simp add: map_has_def split: option.splits)

lemma counts_recv_stat:
  "map_of (counts (recv_stat st s)) c =
     (if st_metric st = ''c'' \<and> st_name st = c
      then Some (map_get (counts s) c 0 + int64_of_float64 (st_value st))
      else map_of (counts s) c)"
  by (auto simp: recv_stat_def Let_def update_conv' map_get_def map_has_iff split: option.splits)

lemma distinct_counts_recv_stat:
  "distinct (map fst (counts s)) \<Longrightarrow> distinct (map fst (counts (recv_stat st s)))"
  by (simp add: recv_stat_def Let_def distinct_update)

lemma distinct_counts_recv_all:
  "distinct (map fst (counts (recv_all sts stat_init)))"
  by (induction sts rule: rev_induct)
     (simp_all add: recv_all_snoc distinct_counts_recv_stat, simp add: recv_all_def stat_init_def)

lemma counts_recv_all:
  "map_of (counts (recv_all sts stat_init)) c =
     (if counter_values c sts = [] then None
      else Some (word_of_int (sum_list (map trunc_float64 (counter_values c sts)))))"
proof (induction sts rule: rev_induct)
  case Nil
  show ?case by (simp add: recv_all_def stat_init_def counter_values_def)
next
  case (snoc st sts)
  show ?case
    using snoc.IH
    by (auto simp: recv_all_snoc counts_recv_stat counter_values_def map_get_def
        int64_of_float64_def)
qed

lemma filter_count_points:
  "distinct (map fst cs) \<Longrightarrow> map_of cs c = Some w \<Longrightarrow>
   points_named (p @ ''.'' @ c) (concat (map (count_points p d now) cs)) =
     [mk_dp (p @ ''.'' @ c) now (f64_div (float64_of_int64 w) (Seconds d))]"
proof (induction cs)
  case Nil
  then show ?case by simp
next
  case (Cons a cs)
  show ?case
  proof (cases "fst a = c")
    case True
    with Cons.prems have "\<forall>b. (c, b) \<notin> set cs" and "snd a = w"
      by (cases a; force)+
    with True show ?thesis
      by (auto simp: points_named_def filter_empty_conv count_points_def mk_dp_def)
  next
    case False
    with Cons show ?thesis
      by (cases a) (simp add: points_named_def count_points_def mk_dp_def)
  qed
qed

lemma filter_gauge_points:
  "take 7 c \<noteq> ''gauges.'' \<Longrightarrow>
   points_named (p @ ''.'' @ c) (concat (map (gauge_points p now) gs)) = []"
  by (auto simp: points_named_def filter_empty_conv gauge_points_def mk_dp_def)

lemma filter_timer_points:
  "take 7 c \<noteq> ''timers.'' \<Longrightarrow>
   points_named (p @ ''.'' @ c) (concat (map (timer_points p now) ts)) = []"
  by (auto simp: points_named_def filter_empty_conv timer_points_def mk_dp_def
      split: list.splits prod.splits)

lemma points_named_append: "points_named n (xs @ ys) = points_named n xs @ points_named n ys"
  by (simp add: points_named_def)

lemma sint_word_of_int_fits:
  "- (2 ^ 63) \<le> k \<Longrightarrow> k < 2 ^ 63 \<Longrightarrow> sint (word_of_int k :: int64) = k"
  by (simp add: sint_sbintrunc' signed_take_bit_int_eq_self)

subsection \<open>Rounding to float64\<close>

lemma pow2_powr: "pow2 k = 2 powr (of_int k)"
  by (auto simp: pow2_def powr_realpow [symmetric] powr_minus divide_simps)

lemma pow2_pos: "0 < pow2 k"
  by (simp add: pow2_powr)

lemma pow2_add: "pow2 (j + k) = pow2 j * pow2 k"
  by (simp add: pow2_powr powr_add)

lemma pow2_less_iff: "pow2 j < pow2 k \<longleftrightarrow> j < k"
  by (simp add: pow2_powr)

lemma pow2_nonneg_int: "0 \<le> k \<Longrightarrow> pow2 k = of_int (2 ^ nat k)"
  by (simp add: pow2_def)

lemma float64_exponent_le: "0 < a \<Longrightarrow> pow2 (float64_exponent a) \<le> a"
proof (cases "1 \<le> a")
  case True
  then have p: "0 < \<lfloor>a\<rfloor>" by linarith
  from bitlen_bounds [OF p] have "2 ^ nat (bitlen \<lfloor>a\<rfloor> - 1) \<le> \<lfloor>a\<rfloor>" by simp
  moreover have "0 \<le> bitlen \<lfloor>a\<rfloor> - 1"
    using p by (simp add: bitlen_alt_def)
  ultimately have "pow2 (bitlen \<lfloor>a\<rfloor> - 1) \<le> of_int \<lfloor>a\<rfloor>"
    by (simp add: pow2_nonneg_int)
  also have "\<dots> \<le> a" by simp
  finally show ?thesis using True by (simp add: float64_exponent_def)
next
  case False
  assume a: "0 < a"
  let ?n = "\<lceil>1 / a\<rceil>"
  let ?b = "bitlen (?n - 1)"
  from False a have "1 < 1 / a" by simp
  then have n2: "2 \<le> ?n" by linarith
  then have p: "0 < ?n - 1" by simp
  from bitlen_bounds [OF p] have "?n - 1 < 2 ^ nat ?b" by simp
  then have "?n \<le> 2 ^ nat ?b" by simp
  then have "of_int ?n \<le> (2::real) ^ nat ?b"
    by (metis of_int_le_iff of_int_numeral of_int_power)
  moreover have "1 / a \<le> of_int ?n" by simp
  ultimately have "1 / a \<le> 2 ^ nat ?b" by linarith
  then have "1 / 2 ^ nat ?b \<le> a"
    using a by (simp add: field_simps)
  moreover have "0 \<le> ?b" by (simp add: bitlen_nonneg)
  ultimately have "pow2 (- ?b) \<le> a"
    by (auto simp: pow2_def)
  then show ?thesis using False by (simp add: float64_exponent_def)
qed

lemma round_half_even_of_int: "round_half_even (of_int m) = m"
  by (simp add: round_half_even_def)

text \<open>A representable number is rounded to itself.\<close>

lemma round_float64_exact:
  assumes x: "x = of_int m * pow2 k" and m: "\<bar>m\<bar> < 2 ^ 53" and k: "- 1074 \<le> k"
  shows "round_float64 x = x"
proof (cases "x = 0")
  case True
  then show ?thesis by (simp add: round_float64_def)
next
  case False
  let ?e = "max (float64_exponent \<bar>x\<bar>) (- 1022) - 52"
  have "\<bar>x\<bar> = of_int \<bar>m\<bar> * pow2 k"
    using x pow2_pos [of k] by (simp add: abs_mult)
  also have "\<dots> < of_int (2 ^ 53) * pow2 k"
    using m pow2_pos [of k] by (intro mult_strict_right_mono) (simp_all del: of_int_power)
  also have "\<dots> = pow2 (53 + k)"
  proof -
    have "pow2 53 = of_int (2 ^ 53)" by (simp add: pow2_def)
    then show ?thesis by (simp only: pow2_add)
  qed
  finally have "\<bar>x\<bar> < pow2 (53 + k)" .
  moreover have "pow2 (float64_exponent \<bar>x\<bar>) \<le> \<bar>x\<bar>"
    using False by (intro float64_exponent_le) simp
  ultimately have "pow2 (float64_exponent \<bar>x\<bar>) < pow2 (53 + k)" by linarith
  then have "float64_exponent \<bar>x\<bar> < 53 + k" by (simp add: pow2_less_iff)
  with k have ek: "?e \<le> k" by simp
  then have d: "0 \<le> k - ?e" by simp
  have "x / pow2 ?e = of_int m * (pow2 k / pow2 ?e)" using x by simp
  also have "pow2 k / pow2 ?e = pow2 (k - ?e)"
    using pow2_add [of "k - ?e" ?e] pow2_pos [of ?e] by (simp add: field_simps)
  also have "\<dots> = of_int (2 ^ nat (k - ?e))" using d by (rule pow2_nonneg_int)
  finally have i: "x / pow2 ?e = of_int (m * 2 ^ nat (k - ?e))" by simp
  then have "round_half_even (x / pow2 ?e) = m * 2 ^ nat (k - ?e)"
    by (simp only: round_half_even_of_int)
  then have "pow2 ?e * of_int (round_half_even (x / pow2 ?e)) = pow2 ?e * (x / pow2 ?e)"
    using i by simp
  also have "\<dots> = x" using pow2_pos [of ?e] by simp
  finally show ?thesis using False by (simp add: round_float64_def Let_def)
qed

lemma round_float64_of_int: "\<bar>m\<bar> < 2 ^ 53 \<Longrightarrow> round_float64 (of_int m) = of_int m"
  using round_float64_exact [of "of_int m" m 0] by (simp add: pow2_def)

text \<open>Beyond \<open>2 ^ 53\<close> integers are rounded, and a third is not representable.\<close>

lemma round_float64_2_53_plus_1: "round_float64 (2 ^ 53 + 1) = 2 ^ 53"
  by (simp add: round_float64_def float64_exponent_def compute_bitlen pow2_def
      round_half_even_def Let_def)

lemma round_float64_third: "round_float64 (1 / 3) = 6004799503160661 / 2 ^ 54"
  by (simp add: round_float64_def float64_exponent_def compute_bitlen pow2_def
      round_half_even_def Let_def)

text \<open>\<^verbatim>\<open>Seconds()\<close> of a whole number of seconds below \<open>2 ^ 53\<close> is that number.\<close>

lemma Seconds_whole:
  assumes "0 \<le> j" "j < 2 ^ 53"
  shows "Seconds (j * Second) = of_int j"
proof -
  have q: "go_quot (j * Second) Second = j"
    using assms by (simp add: go_quot_def Second_def abs_mult)
  then have r: "go_rem (j * Second) Second = 0"
    by (simp add: go_rem_def mult.commute)
  have "round_float64 (of_int j) = of_int j"
    using assms by (intro round_float64_of_int) simp
  then show ?thesis
    by (simp add: Seconds_def q r f64_add_def f64_div_def round_float64_def)
qed

subsection \<open>Counter rates\<close>

lemma counter_rate_general:
  assumes vs: "counter_values c sts = vs" and ne: "vs \<noteq> []"
    and lo: "- (2 ^ 63) \<le> sum_list (map trunc_float64 vs)"
    and hi: "sum_list (map trunc_float64 vs) < 2 ^ 63"
    and ng: "take 7 c \<noteq> ''gauges.''" and nt: "take 7 c \<noteq> ''timers.''"
  shows "points_named (p @ ''.'' @ c)
           (fst (statWorker p statFlush (map StatMsg sts @ [FlushTick now]) ([], stat_init))) =
         [mk_dp (p @ ''.'' @ c) now
            (f64_div (round_float64 (real_of_int (sum_list (map trunc_float64 vs))))
               (Seconds statFlush))]"
proof -
  let ?s = "recv_all sts stat_init"
  have m: "map_of (counts ?s) c = Some (word_of_int (sum_list (map trunc_float64 vs)))"
    using vs ne by (simp add: counts_recv_all)
  have "points_named (p @ ''.'' @ c) (fst (flushStats p statFlush now ?s)) =
        [mk_dp (p @ ''.'' @ c) now
           (f64_div (float64_of_int64 (word_of_int (sum_list (map trunc_float64 vs))))
              (Seconds statFlush))]"
    using filter_count_points [OF distinct_counts_recv_all m, of p statFlush now]
      filter_gauge_points [OF ng, of p now "gauges ?s"]
      filter_timer_points [OF nt, of p now "timers ?s"]
    by (simp add: flushStats_def points_named_append)
  then show ?thesis
    by (simp add: statWorker_stats float64_of_int64_def sint_word_of_int_fits [OF lo hi]
        case_prod_beta)
qed




text \<open>
  Where the count or the quotient is not representable the rate is the rounded one. A
  counter that receives \<open>2 ^ 53\<close> and 1 in an interval of one second is emitted as
  \<open>2 ^ 53\<close> = 9007199254740992, and a counter that receives 1 in an interval of three
  seconds as the float64 next to a third.
\<close>

lemma counter_rate_rounds_count:
  "map dp_Value (points_named ''s.hits''
     (fst (statWorker ''s'' Second
        [StatMsg \<lparr>st_name = ''hits'', st_metric = ''c'', st_value = 2 ^ 53\<rparr>,
         StatMsg \<lparr>st_name = ''hits'', st_metric = ''c'', st_value = 1\<rparr>,
         FlushTick 1000000000] ([], stat_init)))) = [9007199254740992]"
proof -
  let ?sts = "[\<lparr>st_name = ''hits'', st_metric = ''c'', st_value = 2 ^ 53\<rparr>,
         \<lparr>st_name = ''hits'', st_metric = ''c'', st_value = 1\<rparr>]"
  have v: "counter_values ''hits'' ?sts = [2 ^ 53, 1]"
    by (simp add: counter_values_def)
  have t: "trunc_float64 (2 ^ 53) = 2 ^ 53" "trunc_float64 1 = 1"
    by (simp_all add: trunc_float64_def)
  have s: "Seconds Second = 1"
    using Seconds_whole [of 1] by simp
  have r: "round_float64 9007199254740993 = 9007199254740992"
    using round_float64_2_53_plus_1 by simp
  have r2: "round_float64 9007199254740992 = 9007199254740992"
    using round_float64_exact [of 9007199254740992 1 53] by (simp add: pow2_def)
  from counter_rate_general [OF v, of "''s''" Second 1000000000] t s r r2
  show ?thesis
    by (simp add: f64_div_def mk_dp_def)
qed

lemma counter_rate_rounds_quotient:
  "map dp_Value (points_named ''s.hits''
     (fst (statWorker ''s'' (3 * Second)
        [StatMsg \<lparr>st_name = ''hits'', st_metric = ''c'', st_value = 1\<rparr>,
         FlushTick 3000000000] ([], stat_init)))) = [6004799503160661 / 2 ^ 54]"
proof -
  let ?sts = "[\<lparr>st_name = ''hits'', st_metric = ''c'', st_value = 1\<rparr>]"
  have v: "counter_values ''hits'' ?sts = [1]"
    by (simp add: counter_values_def)
  have t: "trunc_float64 1 = 1"
    by (simp add: trunc_float64_def)
  have s: "Seconds (3 * Second) = 3"
    using Seconds_whole [of 3] by simp
  have r: "round_float64 1 = 1"
    using round_float64_of_int [of 1] by simp
  from counter_rate_general [OF v, of "''s''" "3 * Second" 3000000000] t s r
    round_float64_third
  show ?thesis
    by (simp add: f64_div_def mk_dp_def)
qed

text \<open>
  When the count is below \<open>2 ^ 53\<close>, the flush period a whole number of seconds below
  \<open>2 ^ 53\<close> and the quotient representable, the rate is the exact quotient.
\<close>

lemma counter_rate_exact:
  assumes vs: "counter_values c sts = vs" and ne: "vs \<noteq> []"
    and S: "\<bar>sum_list (map trunc_float64 vs)\<bar> < 2 ^ 53"
    and j: "0 < j" "j < 2 ^ 53"
    and rep: "real_of_int (sum_list (map trunc_float64 vs)) / of_int j = of_int m * pow2 k"
      "\<bar>m\<bar> < 2 ^ 53" "- 1074 \<le> k"
    and ng: "take 7 c \<noteq> ''gauges.''" and nt: "take 7 c \<noteq> ''timers.''"
  shows "points_named (p @ ''.'' @ c)
           (fst (statWorker p (j * Second) (map StatMsg sts @ [FlushTick now]) ([], stat_init))) =
         [mk_dp (p @ ''.'' @ c) now
            (real_of_int (sum_list (map trunc_float64 vs)) / of_int j)]"
proof -
  have lo: "- (2 ^ 63) \<le> sum_list (map trunc_float64 vs)"
    and hi: "sum_list (map trunc_float64 vs) < 2 ^ 63"
    using S by simp_all
  have r: "round_float64 (real_of_int (sum_list (map trunc_float64 vs))) =
      real_of_int (sum_list (map trunc_float64 vs))"
    using S by (rule round_float64_of_int)
  have s: "Seconds (j * Second) = of_int j"
    using j by (intro Seconds_whole) simp_all
  have q: "round_float64 (real_of_int (sum_list (map trunc_float64 vs)) / of_int j) =
      real_of_int (sum_list (map trunc_float64 vs)) / of_int j"
    using rep by (rule round_float64_exact)
  from counter_rate_general [OF vs ne lo hi ng nt, of p "j * Second" now] r s q
  show ?thesis
    by (simp add: f64_div_def)
qed

subsection \<open>Timer summaries\<close>

lemma timers_recv_stat:
  "map_of (timers (recv_stat st s)) n =
     (if st_metric st = ''ms'' \<and> st_name st = n
      then Some ((case map_of (timers s) n of None \<Rightarrow> replicate 4 0 | Some ts \<Rightarrow> ts) @ [st_value st])
      else map_of (timers s) n)"
  by (auto simp: recv_stat_def Let_def update_conv' map_get_def map_has_iff split: option.splits)

text \<open>
  The list a timer name holds at the flush is never just the observed values: the first
  observation of a name creates the list with \<^verbatim>\<open>make([]float64, 4)\<close>, four zeros, and
  the observations follow them.
\<close>

lemma timers_recv_all:
  "map_of (timers (recv_all sts stat_init)) n =
     (if timer_values n sts = [] then None
      else Some (replicate 4 0 @ timer_values n sts))"
proof (induction sts rule: rev_induct)
  case Nil
  show ?case by (simp add: recv_all_def stat_init_def timer_values_def)
next
  case (snoc st sts)
  show ?case
    using snoc.IH
    by (auto simp: recv_all_snoc timers_recv_stat timer_values_def)
qed

lemma timer_loop_eq:
  "timer_loop vs (l, u, a) = (fold min vs l, fold max vs u, a + sum_list vs)"
  by (induction vs arbitrary: l u a) (simp_all add: algebra_simps min.commute max.commute)

lemma fold_min_Min: "fold min vs (l::real) = Min (insert l (set vs))"
  by (metis Min.set_eq_fold list.simps(15))

lemma fold_max_Max: "fold max vs (u::real) = Max (insert u (set vs))"
  by (metis Max.set_eq_fold list.simps(15))

text \<open>
  What the flush computes from such a list, for observed values \<open>L\<close>: the count is
  \<open>|L| + 4\<close>, lower and upper also range over the zero, the sum is that of \<open>L\<close> (the
  loop skips the first entry, a zero), and the mean divides by \<open>|L| + 4\<close>.
\<close>

lemma timer_points_presized:
  "map dp_Value (timer_points p now (n, replicate 4 0 @ L)) =
     [real (length L + 4), Min (insert 0 (set L)), Max (insert 0 (set L)), sum_list L,
      sum_list L / real (length L + 4)]"
  by (simp add: timer_points_def eval_nat_numeral timer_loop_eq fold_min_Min fold_max_Max mk_dp_def)

text \<open>
  C1 at scenario S4 of the specification: the timer \<open>rt\<close> observes 10, 20 and 30 in one
  interval. The specification expects count 3, lower 10, upper 30, sum 60 and mean 20;
  the flush queues count 7, lower 0, upper 30, sum 60 and mean 60/7.
\<close>

theorem timer_summary_S4:
  "fst (statWorker ''s'' Second
     [StatMsg \<lparr>st_name = ''rt'', st_metric = ''ms'', st_value = 10\<rparr>,
      StatMsg \<lparr>st_name = ''rt'', st_metric = ''ms'', st_value = 20\<rparr>,
      StatMsg \<lparr>st_name = ''rt'', st_metric = ''ms'', st_value = 30\<rparr>,
      FlushTick 1000000000] ([], stat_init)) =
   [mk_dp ''s.timers.rt.count'' 1000000000 7,
    mk_dp ''s.timers.rt.lower'' 1000000000 0,
    mk_dp ''s.timers.rt.upper'' 1000000000 30,
    mk_dp ''s.timers.rt.sum'' 1000000000 60,
    mk_dp ''s.timers.rt.mean'' 1000000000 (60 / 7)]"
  by (simp add: stat_init_def recv_stat_def flushStats_def timer_points_def map_has_def
      map_get_def mk_dp_def eval_nat_numeral)

subsection \<open>The periodic-flush timer\<close>

text \<open>
  C8 on transceiver.go, with MinCache one second and MaxCache two seconds: the delta of
  \<open>10\<^sup>9\<close> ns is divided by 1000, so \<^verbatim>\<open>rand.Intn\<close> may return 999999, which is then taken
  as milliseconds: the sleep is 1000.999 s, far beyond MaxCache.
\<close>

theorem worker_periodic_sleep_exceeds_MaxCache:
  "worker_periodic_sleep Second (2 * Second) 999999 = Returns 1000999000000 \<and>
   2 * Second < 1000999000000"
  by (simp add: worker_periodic_sleep_def go_quot_def Nanoseconds_def Second_def rand_Intn_def
      Millisecond_def)

text \<open>
  C10 on transceiver.go: with MaxCache equal to MinCache the delta is zero, so is \<open>i\<close>, and
  \<^verbatim>\<open>rand.Intn(0)\<close> panics, whatever the random source.
\<close>

theorem worker_periodic_sleep_panics:
  "worker_periodic_sleep d d draw = Panics NonPositiveIntn"
  by (simp add: worker_periodic_sleep_def go_quot_def Nanoseconds_def rand_Intn_def)

text \<open>
  The later \<^verbatim>\<open>workerPeriodicFlushSignal\<close> of receiver/worker.go does what both claims say:
  for \<open>minCacheDur \<le> maxCacheDur\<close> the argument \<open>i + 1\<close> of \<^verbatim>\<open>rand.Intn\<close> is positive, and
  the sleep lies between the two durations.
\<close>

lemma workerPeriodicFlushSignal_dur_bounds:
  assumes "minCacheDur \<le> maxCacheDur"
  shows "\<exists>d. workerPeriodicFlushSignal_dur minCacheDur maxCacheDur draw = Returns d \<and>
             minCacheDur \<le> d \<and> d \<le> maxCacheDur"
proof -
  let ?delta = "maxCacheDur - minCacheDur"
  let ?i = "?delta div 1000000"
  have q: "go_quot ?delta 1000000 = ?i"
    using assms by (simp add: go_quot_def)
  have i0: "0 \<le> ?i" using assms by simp
  let ?r = "int draw mod (?i + 1)"
  have r: "0 \<le> ?r" "?r \<le> ?i"
    using i0 pos_mod_bound [of "?i + 1" "int draw"] by simp_all
  have "?i * 1000000 \<le> ?delta"
    using mult_div_mod_eq [of 1000000 ?delta] pos_mod_sign [of 1000000 ?delta] by linarith
  with r have "?r * 1000000 \<le> ?delta" by (smt (verit) mult_right_mono)
  with r i0 show ?thesis
    by (simp add: workerPeriodicFlushSignal_dur_def q Nanoseconds_def rand_Intn_def Millisecond_def)
qed

subsection \<open>The stat-flush tick channel\<close>







subsection \<open>Flushing a data source\<close>

lemma go_rem_nonneg: "0 \<le> a \<Longrightarrow> 0 < b \<Longrightarrow> go_rem a b = a mod b"
  by (simp add: go_rem_def go_quot_def minus_mult_div_eq_mod)

text \<open>
  C7, as the code has it. For a positive number of workers and a data source with a
  non-negative id, \<^verbatim>\<open>flushDs\<close> sends to the flusher channel of shard \<open>Id mod Workers\<close>. When
  that flusher receives, what it receives is the \<^verbatim>\<open>mostlyCopy\<close> of the data source as it
  was on entry, and afterwards the live data source carries \<open>now\<close> as \<^verbatim>\<open>LastFlushRT\<close> and
  has had its archives cleared; the snapshot is neither stamped nor cleared. When that
  flusher does not receive, the send, and with it \<^verbatim>\<open>flushDs\<close>, does not complete.
\<close>

theorem flushDs_send_stamp_clear:
  assumes W: "0 < Workers" and idn: "0 \<le> ds_Id (heap st a)"
  shows "(fc_live (flusherChs st (nat (ds_Id (heap st a) mod Workers))) \<longrightarrow>
           (\<exists>st'. flushDs ops Workers now a st = Returns st' \<and>
              fc_taken (flusherChs st' (nat (ds_Id (heap st a) mod Workers))) =
                fc_taken (flusherChs st (nat (ds_Id (heap st a) mod Workers))) @
                  [op_mostlyCopy ops (heap st a)] \<and>
              heap st' a = op_clearRRAs ops ((heap st a)\<lparr>ds_LastFlushRT := now\<rparr>))) \<and>
         (\<not> fc_live (flusherChs st (nat (ds_Id (heap st a) mod Workers))) \<longrightarrow>
           flushDs ops Workers now a st = Blocks)"
  using W idn pos_mod_sign [of Workers "ds_Id (heap st a)"]
  by (simp add: flushDs_def go_rem_nonneg Let_def not_less)

text \<open>
  The theorem on the data source \<open>ds1\<close> (id 1, one worker, instant 100): with a live
  flusher it receives \<open>ds1\<close> itself; with a flusher that does not receive, \<^verbatim>\<open>flushDs\<close>
  blocks.
\<close>

theorem flushDs_send_stamp_clear_witness:
  "fc_live (flusherChs (tw_demo [1 \<mapsto> 0] [1] True)
     (nat (ds_Id (heap (tw_demo [1 \<mapsto> 0] [1] True) 0) mod 1))) \<and>
   outcome_taken (flushDs (spec_ops 100 100 Second (10 * Second)) 1 100 0
     (tw_demo [1 \<mapsto> 0] [1] True)) 0 = [ds1] \<and>
   \<not> fc_live (flusherChs (tw_demo [1 \<mapsto> 0] [1] False)
     (nat (ds_Id (heap (tw_demo [1 \<mapsto> 0] [1] False) 0) mod 1))) \<and>
   flushDs (spec_ops 100 100 Second (10 * Second)) 1 100 0 (tw_demo [1 \<mapsto> 0] [1] False) = Blocks"
proof -
  have i: "0 \<le> ds_Id (heap (tw_demo [1 \<mapsto> 0] [1] True) 0)"
    "0 \<le> ds_Id (heap (tw_demo [1 \<mapsto> 0] [1] False) 0)"
    by (simp_all add: tw_demo_def ds1_def)
  have l: "fc_live (flusherChs (tw_demo [1 \<mapsto> 0] [1] True) 0)"
    "\<not> fc_live (flusherChs (tw_demo [1 \<mapsto> 0] [1] False) 0)"
    by (simp_all add: tw_demo_def)
  have h: "heap (tw_demo [1 \<mapsto> 0] [1] True) 0 = ds1"
    "fc_taken (flusherChs (tw_demo [1 \<mapsto> 0] [1] True) 0) = []"
    by (simp_all add: tw_demo_def)
  from flushDs_send_stamp_clear [of 1 "tw_demo [1 \<mapsto> 0] [1] True" 0
      "spec_ops 100 100 Second (10 * Second)" 100, OF _ i(1)]
    flushDs_send_stamp_clear [of 1 "tw_demo [1 \<mapsto> 0] [1] False" 0
      "spec_ops 100 100 Second (10 * Second)" 100, OF _ i(2)]
    l h
  show ?thesis
    by (auto simp: outcome_taken_def spec_ops_def spec_mostlyCopy_def)
qed

text \<open>
  C7 as stated fails twice on \<open>ds1\<close>, last flushed at instant 0 and flushed at instant
  100: the snapshot the flusher receives still carries \<^verbatim>\<open>LastFlushRT\<close> 0 (the stamp goes
  to the live data source, after the copy), and with a flusher that does not receive the
  call blocks instead of enqueueing.
\<close>

theorem flushDs_counterexample:
  "map ds_LastFlushRT
     (outcome_taken (flushDs (spec_ops 100 100 Second (10 * Second)) 1 100 0
        (tw_demo [1 \<mapsto> 0] [1] True)) 0) = [0] \<and>
   flushDs (spec_ops 100 100 Second (10 * Second)) 1 100 0 (tw_demo [1 \<mapsto> 0] [1] False) = Blocks"
  by (simp add: outcome_taken_def flushDs_def tw_demo_def ds1_def go_rem_def go_quot_def
      spec_ops_def spec_mostlyCopy_def)

text \<open>Whatever \<^verbatim>\<open>mostlyCopy\<close> does, the snapshot sent cannot depend on the instant.\<close>

lemma flushDs_snapshot_independent_of_now:
  "outcome_taken (flushDs ops Workers now a st) i = outcome_taken (flushDs ops Workers now' a st) i"
  by (simp add: outcome_taken_def flushDs_def Let_def)

subsection \<open>Copy requests\<close>

lemma requestDsCopy_known:
  "0 < Workers \<Longrightarrow> 0 \<le> dsId \<Longrightarrow> dss_byId st dsId = Some a \<Longrightarrow>
   requestDsCopy ops Workers dsId st = Returns (Some (op_mostlyCopy ops (heap st a)))"
  using pos_mod_sign [of Workers dsId]
  by (simp add: requestDsCopy_def go_rem_nonneg worker_dsCopy_def chan_recv_def not_less)

lemma requestDsCopy_unknown:
  "0 < Workers \<Longrightarrow> 0 \<le> dsId \<Longrightarrow> dss_byId st dsId = None \<Longrightarrow>
   requestDsCopy ops Workers dsId st = Blocks"
  using pos_mod_sign [of Workers dsId]
  by (simp add: requestDsCopy_def go_rem_nonneg worker_dsCopy_def chan_recv_def not_less)

text \<open>
  C2 at an unknown id: with one worker and an empty registry, \<^verbatim>\<open>requestDsCopy(7)\<close> does not
  return nil: the worker logs and goes on without a send or a close on the reply channel,
  and the caller waits on it for ever.
\<close>

theorem requestDsCopy_unknown_blocks:
  "requestDsCopy (spec_ops 0 100 Second (10 * Second)) 1 7 (tw_demo Map.empty [] True) = Blocks"
  by (simp add: requestDsCopy_def go_rem_def go_quot_def worker_dsCopy_def tw_demo_def
      chan_recv_def)

subsection \<open>The periodic pass and lost data sources\<close>

text \<open>
  C4 on transceiver.go: the periodic signal arrives while \<^verbatim>\<open>recent\<close> holds the id 5, which
  the registry does not find. The worker logs it, and \<^verbatim>\<open>recent\<close> still holds 5 after the
  pass.
\<close>

theorem worker_periodic_keeps_lost_id:
  "worker_iteration (spec_ops 0 100 Second (10 * Second)) 1 0 PeriodicFlushCheck
     (tw_demo Map.empty [5] True) =
   Returns ((tw_demo Map.empty [5] True)\<lparr>worker_logs := [CannotLookupToFlush 5]\<rparr>, False)"
  by (simp add: worker_iteration_def tw_demo_def obind_def)

text \<open>
  The later \<^verbatim>\<open>workerPeriodicFlush\<close> of receiver/worker.go does remove such ids: after it,
  the registry finds every id left in \<^verbatim>\<open>recent\<close>.
\<close>

lemma workerPeriodicFlush_loop_props:
  "rw_byId (workerPeriodicFlush_loop ops ks mn mx mp st) = rw_byId st \<and>
   set (rw_recent (workerPeriodicFlush_loop ops ks mn mx mp st)) \<subseteq> set (rw_recent st) \<and>
   (\<forall>k \<in> set ks. k \<in> set (rw_recent (workerPeriodicFlush_loop ops ks mn mx mp st)) \<longrightarrow>
      rw_byId st k \<noteq> None)"
proof (induction ks arbitrary: st)
  case Nil
  show ?case by simp
next
  case (Cons dsId ks)
  show ?case
  proof (cases "dsId \<in> set (rw_recent st)")
    case False
    with Cons [of st] show ?thesis by auto
  next
    case inrec: True
    show ?thesis
    proof (cases "rw_byId st dsId")
      case None
      let ?st1 = "st\<lparr>rw_logs := rw_logs st @ [CannotLookupToFlush dsId],
                   rw_recent := recent_delete dsId (rw_recent st)\<rparr>"
      from Cons [of ?st1] inrec None show ?thesis
        by (auto simp: recent_delete_def)
    next
      case (Some a)
      show ?thesis
      proof (cases "rop_shouldBeFlushed ops (rw_heap st a) mp mn mn")
        case False
        with Cons [of st] inrec Some show ?thesis by auto
      next
        case True
        let ?st' = "dsf_flushDs ops a False st"
        let ?st1 = "?st'\<lparr>rw_recent := recent_delete (ds_Id (rw_heap ?st' a)) (rw_recent ?st')\<rparr>"
        have b: "rw_byId ?st1 = rw_byId st" "set (rw_recent ?st1) \<subseteq> set (rw_recent st)"
          by (auto simp: dsf_flushDs_def recent_delete_def)
        from Cons [of ?st1] inrec Some True b show ?thesis
          by (auto simp: Let_def)
      qed
    qed
  qed
qed

lemma workerPeriodicFlush_no_dangling:
  "\<forall>k \<in> set (rw_recent (workerPeriodicFlush ops mn mx mp st)).
     rw_byId (workerPeriodicFlush ops mn mx mp st) k \<noteq> None"
  using workerPeriodicFlush_loop_props [of ops "rw_recent st" mn mx mp st]
  by (auto simp: workerPeriodicFlush_def)

subsection \<open>The arguments of \<^verbatim>\<open>shouldBeFlushed\<close>\<close>

text \<open>
  The periodic path of receiver/worker.go never hands \<open>maxCacheDur\<close> to
  \<^verbatim>\<open>shouldBeFlushed\<close>: its result is the same for any two values of it.
\<close>

lemma workerPeriodicFlush_loop_ignores_maxCacheDur:
  "workerPeriodicFlush_loop ops ks minCacheDur maxCacheDur maxPoints st =
   workerPeriodicFlush_loop ops ks minCacheDur maxCacheDur' maxPoints st"
  by (induction ks arbitrary: st) (simp_all split: option.splits)

text \<open>
  C5 on receiver/worker.go, with \<open>minCacheDur\<close> 1 s, \<open>maxCacheDur\<close> 10 s and \<open>maxPoints\<close>
  100: the data source \<open>ds1\<close> holds one slot and was flushed 5 s ago, so
  \<^verbatim>\<open>shouldBeFlushed(maxPoints, minCacheDur, maxCacheDur)\<close> is false. The periodic pass all
  the same flushes it and drops it from \<^verbatim>\<open>recent\<close>, because it calls
  \<^verbatim>\<open>shouldBeFlushed(maxPoints, minCacheDur, minCacheDur)\<close>.
\<close>

theorem workerPeriodicFlush_passes_minCacheDur_twice:
  "rw_flushDs_calls (workerPeriodicFlush (spec_rw_ops (5 * Second)) Second (10 * Second) 100
       (rw_demo [1 \<mapsto> 0] [1])) = [(ds1, False)] \<and>
   rw_recent (workerPeriodicFlush (spec_rw_ops (5 * Second)) Second (10 * Second) 100
       (rw_demo [1 \<mapsto> 0] [1])) = [] \<and>
   \<not> spec_shouldBeFlushed (5 * Second) ds1 100 Second (10 * Second)"
  by (simp add: workerPeriodicFlush_def rw_demo_def spec_rw_ops_def spec_shouldBeFlushed_def
      ds1_def Second_def dsf_flushDs_def recent_delete_def spec_clearRRAs_def)

subsection \<open>The final pass of a worker\<close>

lemma flushDs_Returns:
  assumes "0 < Workers" "0 \<le> ds_Id (heap st a)" "fc_live (flusherChs st (nat (ds_Id (heap st a) mod Workers)))"
  shows "flushDs ops Workers now a st =
    Returns (st\<lparr>flusherChs := (flusherChs st)
                 (nat (ds_Id (heap st a) mod Workers) :=
                    (flusherChs st (nat (ds_Id (heap st a) mod Workers)))
                      \<lparr>fc_taken := fc_taken (flusherChs st (nat (ds_Id (heap st a) mod Workers))) @
                         [op_mostlyCopy ops (heap st a)]\<rparr>),
               heap := (heap st)(a := op_clearRRAs ops ((heap st a)\<lparr>ds_LastFlushRT := now\<rparr>))\<rparr>)"
  using assms pos_mod_sign [of Workers "ds_Id (heap st a)"]
  by (simp add: flushDs_def go_rem_nonneg Let_def not_less)

lemma worker_final_loop:
  assumes W: "0 < Workers" and idp: "\<forall>d. ds_Id (op_clearRRAs ops d) = ds_Id d"
  shows "\<forall>i. fc_live (flusherChs st i) \<Longrightarrow>
     \<forall>k a. dss_byId st k = Some a \<longrightarrow> ds_Id (heap st a) = k \<Longrightarrow>
     \<forall>k \<in> set ks. 0 \<le> k \<Longrightarrow>
     \<exists>st'. worker_flush_loop ops Workers now True ks st = Returns st' \<and>
        (\<forall>i. \<exists>new. fc_taken (flusherChs st' i) = fc_taken (flusherChs st i) @ new \<and>
            (\<forall>k \<in> set ks. k \<in> set (recent st) \<longrightarrow>
               (\<forall>a. dss_byId st k = Some a \<longrightarrow> nat (k mod Workers) = i \<longrightarrow>
                  op_mostlyCopy ops (heap st a) \<in> set new))) \<and>
        set (recent st') = set (recent st) - {k \<in> set ks. dss_byId st k \<noteq> None}"
proof (induction ks arbitrary: st)
  case Nil
  show ?case by simp
next
  case (Cons dsId ks)
  note live = Cons.prems(1) and cons = Cons.prems(2) and nn = Cons.prems(3)
  from nn have nn': "\<forall>k \<in> set ks. 0 \<le> k" by simp
  show ?case
  proof (cases "dsId \<in> set (recent st)")
    case False
    from Cons.IH [OF live cons nn'] obtain st' where
      r: "worker_flush_loop ops Workers now True ks st = Returns st'"
      and t: "\<forall>i. \<exists>new. fc_taken (flusherChs st' i) = fc_taken (flusherChs st i) @ new \<and>
            (\<forall>k \<in> set ks. k \<in> set (recent st) \<longrightarrow>
               (\<forall>a. dss_byId st k = Some a \<longrightarrow> nat (k mod Workers) = i \<longrightarrow>
                  op_mostlyCopy ops (heap st a) \<in> set new))"
      and c: "set (recent st') = set (recent st) - {k \<in> set ks. dss_byId st k \<noteq> None}"
      by blast
    have "worker_flush_loop ops Workers now True (dsId # ks) st = Returns st'"
      using False r by simp
    moreover have "set (recent st') = set (recent st) - {k \<in> set (dsId # ks). dss_byId st k \<noteq> None}"
      using c False by auto
    moreover have "\<forall>i. \<exists>new. fc_taken (flusherChs st' i) = fc_taken (flusherChs st i) @ new \<and>
            (\<forall>k \<in> set (dsId # ks). k \<in> set (recent st) \<longrightarrow>
               (\<forall>a. dss_byId st k = Some a \<longrightarrow> nat (k mod Workers) = i \<longrightarrow>
                  op_mostlyCopy ops (heap st a) \<in> set new))"
      using t False by (metis set_ConsD)
    ultimately show ?thesis by blast
  next
    case inrec: True
    show ?thesis
    proof (cases "dss_byId st dsId")
      case None
      let ?st1 = "st\<lparr>worker_logs := worker_logs st @ [CannotLookupToFlush dsId]\<rparr>"
      have l1: "\<forall>i. fc_live (flusherChs ?st1 i)" using live by simp
      have c1: "\<forall>k a. dss_byId ?st1 k = Some a \<longrightarrow> ds_Id (heap ?st1 a) = k" using cons by simp
      from Cons.IH [OF l1 c1 nn'] obtain st' where
        r: "worker_flush_loop ops Workers now True ks ?st1 = Returns st'"
        and t: "\<forall>i. \<exists>new. fc_taken (flusherChs st' i) = fc_taken (flusherChs st i) @ new \<and>
            (\<forall>k \<in> set ks. k \<in> set (recent st) \<longrightarrow>
               (\<forall>a. dss_byId st k = Some a \<longrightarrow> nat (k mod Workers) = i \<longrightarrow>
                  op_mostlyCopy ops (heap st a) \<in> set new))"
        and c: "set (recent st') = set (recent st) - {k \<in> set ks. dss_byId st k \<noteq> None}"
        by auto
      have "worker_flush_loop ops Workers now True (dsId # ks) st = Returns st'"
        using inrec None r by simp
      moreover have "set (recent st') = set (recent st) - {k \<in> set (dsId # ks). dss_byId st k \<noteq> None}"
        using c None by auto
      moreover have "\<forall>i. \<exists>new. fc_taken (flusherChs st' i) = fc_taken (flusherChs st i) @ new \<and>
            (\<forall>k \<in> set (dsId # ks). k \<in> set (recent st) \<longrightarrow>
               (\<forall>a. dss_byId st k = Some a \<longrightarrow> nat (k mod Workers) = i \<longrightarrow>
                  op_mostlyCopy ops (heap st a) \<in> set new))"
      proof
        fix i
        from t obtain new where n: "fc_taken (flusherChs st' i) = fc_taken (flusherChs st i) @ new"
          "\<forall>k \<in> set ks. k \<in> set (recent st) \<longrightarrow>
               (\<forall>a. dss_byId st k = Some a \<longrightarrow> nat (k mod Workers) = i \<longrightarrow>
                  op_mostlyCopy ops (heap st a) \<in> set new)" by blast
        with None show "\<exists>new. fc_taken (flusherChs st' i) = fc_taken (flusherChs st i) @ new \<and>
            (\<forall>k \<in> set (dsId # ks). k \<in> set (recent st) \<longrightarrow>
               (\<forall>a. dss_byId st k = Some a \<longrightarrow> nat (k mod Workers) = i \<longrightarrow>
                  op_mostlyCopy ops (heap st a) \<in> set new))"
          by auto
      qed
      ultimately show ?thesis by blast
    next
      case (Some a)
      let ?i0 = "nat (dsId mod Workers)"
      let ?snap = "op_mostlyCopy ops (heap st a)"
      from cons Some have ida: "ds_Id (heap st a) = dsId" by simp
      from nn have d0: "0 \<le> dsId" by simp
      let ?st2 = "st\<lparr>flusherChs := (flusherChs st)
                 (?i0 := (flusherChs st ?i0)\<lparr>fc_taken := fc_taken (flusherChs st ?i0) @ [?snap]\<rparr>),
               heap := (heap st)(a := op_clearRRAs ops ((heap st a)\<lparr>ds_LastFlushRT := now\<rparr>))\<rparr>"
      have f: "flushDs ops Workers now a st = Returns ?st2"
        using flushDs_Returns [of Workers st a ops now] W d0 live ida by simp
      have id2: "ds_Id (heap ?st2 a) = dsId" using idp ida by simp
      let ?st3 = "?st2\<lparr>recent := recent_delete dsId (recent ?st2)\<rparr>"
      have l3: "\<forall>i. fc_live (flusherChs ?st3 i)" using live by simp
      have c3: "\<forall>k a'. dss_byId ?st3 k = Some a' \<longrightarrow> ds_Id (heap ?st3 a') = k"
        using cons idp ida Some by auto
      from Cons.IH [OF l3 c3 nn'] obtain st' where
        r: "worker_flush_loop ops Workers now True ks ?st3 = Returns st'"
        and t: "\<forall>i. \<exists>new. fc_taken (flusherChs st' i) = fc_taken (flusherChs ?st3 i) @ new \<and>
            (\<forall>k \<in> set ks. k \<in> set (recent ?st3) \<longrightarrow>
               (\<forall>a'. dss_byId ?st3 k = Some a' \<longrightarrow> nat (k mod Workers) = i \<longrightarrow>
                  op_mostlyCopy ops (heap ?st3 a') \<in> set new))"
        and c: "set (recent st') = set (recent ?st3) - {k \<in> set ks. dss_byId ?st3 k \<noteq> None}"
        by blast
      have "worker_flush_loop ops Workers now True (dsId # ks) st = Returns st'"
        using inrec Some f id2 r by simp
      moreover have "set (recent st') = set (recent st) - {k \<in> set (dsId # ks). dss_byId st k \<noteq> None}"
        using c Some by (auto simp: recent_delete_def)
      moreover have "\<forall>i. \<exists>new. fc_taken (flusherChs st' i) = fc_taken (flusherChs st i) @ new \<and>
            (\<forall>k \<in> set (dsId # ks). k \<in> set (recent st) \<longrightarrow>
               (\<forall>a'. dss_byId st k = Some a' \<longrightarrow> nat (k mod Workers) = i \<longrightarrow>
                  op_mostlyCopy ops (heap st a') \<in> set new))"
      proof
        fix i
        from t obtain new3 where n3: "fc_taken (flusherChs st' i) = fc_taken (flusherChs ?st3 i) @ new3"
          and m3: "\<forall>k \<in> set ks. k \<in> set (recent ?st3) \<longrightarrow>
               (\<forall>a'. dss_byId ?st3 k = Some a' \<longrightarrow> nat (k mod Workers) = i \<longrightarrow>
                  op_mostlyCopy ops (heap ?st3 a') \<in> set new3)" by blast
        let ?new = "(if i = ?i0 then [?snap] else []) @ new3"
        have a1: "fc_taken (flusherChs st' i) = fc_taken (flusherChs st i) @ ?new"
          using n3 by simp
        have a2: "\<forall>k \<in> set (dsId # ks). k \<in> set (recent st) \<longrightarrow>
               (\<forall>a'. dss_byId st k = Some a' \<longrightarrow> nat (k mod Workers) = i \<longrightarrow>
                  op_mostlyCopy ops (heap st a') \<in> set ?new)"
        proof (intro ballI impI allI)
          fix k a'
          assume k: "k \<in> set (dsId # ks)" "k \<in> set (recent st)" "dss_byId st k = Some a'"
            "nat (k mod Workers) = i"
          show "op_mostlyCopy ops (heap st a') \<in> set ?new"
          proof (cases "k = dsId")
            case True
            with k Some show ?thesis by simp
          next
            case False
            with k have "k \<in> set ks" "k \<in> set (recent ?st3)" by (auto simp: recent_delete_def)
            moreover have "a' \<noteq> a" using cons k(3) ida False by auto
            ultimately have "op_mostlyCopy ops (heap st a') \<in> set new3"
              using m3 k(3,4) by auto
            then show ?thesis by simp
          qed
        qed
        from a1 a2 show "\<exists>new. fc_taken (flusherChs st' i) = fc_taken (flusherChs st i) @ new \<and>
            (\<forall>k \<in> set (dsId # ks). k \<in> set (recent st) \<longrightarrow>
               (\<forall>a'. dss_byId st k = Some a' \<longrightarrow> nat (k mod Workers) = i \<longrightarrow>
                  op_mostlyCopy ops (heap st a') \<in> set new))"
          by blast
      qed
      ultimately show ?thesis by blast
    qed
  qed
qed


text \<open>
  The worker of transceiver.go does make the final pass. When it finds its inbox closed it
  goes once over \<^verbatim>\<open>recent\<close> and leaves its loop; for a positive number of workers, live
  flushers, a registry whose entries agree with the ids of the data sources, non-negative
  ids, and a \<^verbatim>\<open>clearRRAs\<close> that keeps the id, every id of \<^verbatim>\<open>recent\<close> that the registry
  finds has its snapshot, as it was before the pass, handed to the flusher of its shard
  during the pass, whatever \<^verbatim>\<open>shouldBeFlushed\<close> says.
\<close>

lemma worker_final_pass_flushes_found:
  assumes W: "0 < Workers"
    and live: "\<forall>i. fc_live (flusherChs st i)"
    and cons: "\<forall>k a. dss_byId st k = Some a \<longrightarrow> ds_Id (heap st a) = k"
    and nn: "\<forall>k \<in> set (recent st). 0 \<le> k"
    and idp: "\<forall>d. ds_Id (op_clearRRAs ops d) = ds_Id d"
  shows "\<exists>st'. worker_iteration ops Workers now WorkerChClosed st = Returns (st', True) \<and>
      (\<forall>k \<in> set (recent st). \<forall>a. dss_byId st k = Some a \<longrightarrow>
         (\<exists>new. fc_taken (flusherChs st' (nat (k mod Workers))) =
                   fc_taken (flusherChs st (nat (k mod Workers))) @ new \<and>
                 op_mostlyCopy ops (heap st a) \<in> set new))"
proof -
  from worker_final_loop [OF W idp live cons nn, of now] obtain st' where
    r: "worker_flush_loop ops Workers now True (recent st) st = Returns st'"
    and t: "\<forall>i. \<exists>new. fc_taken (flusherChs st' i) = fc_taken (flusherChs st i) @ new \<and>
            (\<forall>k \<in> set (recent st). k \<in> set (recent st) \<longrightarrow>
               (\<forall>a. dss_byId st k = Some a \<longrightarrow> nat (k mod Workers) = i \<longrightarrow>
                  op_mostlyCopy ops (heap st a) \<in> set new))"
    by blast
  have "worker_iteration ops Workers now WorkerChClosed st = Returns (st', True)"
    using r by (simp add: worker_iteration_def obind_def)
  moreover have "\<forall>k \<in> set (recent st). \<forall>a. dss_byId st k = Some a \<longrightarrow>
         (\<exists>new. fc_taken (flusherChs st' (nat (k mod Workers))) =
                   fc_taken (flusherChs st (nat (k mod Workers))) @ new \<and>
                 op_mostlyCopy ops (heap st a) \<in> set new)"
    using t by blast
  ultimately show ?thesis by blast
qed

text \<open>
  With one worker and \<^verbatim>\<open>recent\<close> holding the id 1 of the data source \<open>ds1\<close>: the flusher
  receives \<open>ds1\<close> in the final pass although \<^verbatim>\<open>shouldBeFlushed\<close> is false for it.
\<close>

lemma worker_final_pass_flushes_found_example:
  "\<not> op_shouldBeFlushed (spec_ops 0 100 Second (10 * Second)) ds1 \<and>
   (\<exists>st'. worker_iteration (spec_ops 0 100 Second (10 * Second)) 1 0 WorkerChClosed
            (tw_demo [1 \<mapsto> 0] [1] True) = Returns (st', True) \<and>
          ds1 \<in> set (fc_taken (flusherChs st' 0)))"
proof -
  let ?st = "tw_demo [1 \<mapsto> 0] [1] True"
  let ?ops = "spec_ops 0 100 Second (10 * Second)"
  have live: "\<forall>i. fc_live (flusherChs ?st i)"
    by (simp add: tw_demo_def)
  have cons: "\<forall>k a. dss_byId ?st k = Some a \<longrightarrow> ds_Id (heap ?st a) = k"
    by (simp add: tw_demo_def ds1_def)
  have nn: "\<forall>k \<in> set (recent ?st). 0 \<le> k"
    by (simp add: tw_demo_def)
  have idp: "\<forall>d. ds_Id (op_clearRRAs ?ops d) = ds_Id d"
    by (simp add: spec_ops_def spec_clearRRAs_def)
  have s: "\<not> op_shouldBeFlushed ?ops ds1"
    by (simp add: spec_ops_def spec_shouldBeFlushed_def ds1_def Second_def)
  from worker_final_pass_flushes_found [of 1 ?st ?ops, OF _ live cons nn idp, of 0]
  obtain st' where
    r: "worker_iteration ?ops 1 0 WorkerChClosed ?st = Returns (st', True)"
    and t: "\<forall>k \<in> set (recent ?st). \<forall>a. dss_byId ?st k = Some a \<longrightarrow>
         (\<exists>new. fc_taken (flusherChs st' (nat (k mod 1))) =
                   fc_taken (flusherChs ?st (nat (k mod 1))) @ new \<and>
                 op_mostlyCopy ?ops (heap ?st a) \<in> set new)"
    by auto
  from t have "ds1 \<in> set (fc_taken (flusherChs st' 0))"
    by (auto simp: tw_demo_def spec_ops_def spec_mostlyCopy_def)
  then show ?thesis using r s by blast
qed

text \<open>
  The worker of receiver/worker.go leaves its loop as soon as it finds the inbox closed,
  whatever \<^verbatim>\<open>recent\<close> holds.
\<close>

lemma receiver_worker_closed_returns_at_once:
  "receiver_worker rops minCacheDur maxCacheDur maxPoints (RWorkerChClosed # evs) rst = (rst, True)"
  by simp

text \<open>
  C3 on receiver/worker.go, with \<open>minCacheDur\<close> 1 s, \<open>maxCacheDur\<close> 10 s and \<open>maxPoints\<close>
  100. A data point arrives for the data source 1 (address 0), which is not yet due for a
  flush, so its id goes into \<^verbatim>\<open>recent\<close>; then the inbox is closed. The worker returns with
  1 still in \<^verbatim>\<open>recent\<close> and without any call of \<^verbatim>\<open>flushDs\<close>: there is no final pass.
\<close>

theorem receiver_worker_closed_no_final_pass:
  "snd (receiver_worker (spec_rw_ops 0) Second (10 * Second) 100
     [RIncomingDp 0 3 0, RWorkerChClosed] (rw_demo [1 \<mapsto> 0] [])) = True \<and>
   rw_recent (fst (receiver_worker (spec_rw_ops 0) Second (10 * Second) 100
     [RIncomingDp 0 3 0, RWorkerChClosed] (rw_demo [1 \<mapsto> 0] []))) = [1] \<and>
   rw_flushDs_calls (fst (receiver_worker (spec_rw_ops 0) Second (10 * Second) 100
     [RIncomingDp 0 3 0, RWorkerChClosed] (rw_demo [1 \<mapsto> 0] []))) = []"
  by (simp add: receiver_incoming_def rw_demo_def spec_rw_ops_def spec_process_def
      spec_shouldBeFlushed_def ds1_def Second_def recent_add_def)

end
